theory Spec2Isabelle
  imports Main
begin

section \<open>The pull-request lint bot: data model\<close>

text \<open>
  The development follows the latest revision of the handler (the one with
  \<^verbatim>\<open>spawnSync\<close>, \<^verbatim>\<open>LINTER_TIMEOUT\<close>, \<^verbatim>\<open>writeSummary\<close> and \<^verbatim>\<open>worriedEmoji\<close>).
  The two earlier revisions share its filtering, counting and annotation code; they
  differ in how the lint command is run, which has a section of its own.

  The numeric fields of a linter message are only ever copied by the program, so their
  type is left as the parameter \<open>'n\<close>.
\<close>

record 'n Message =
  ruleId :: string
  severity :: 'n
  message :: string
  line :: 'n
  column :: 'n
  nodeType :: string
  messageId :: string
  endLine :: 'n
  endColumn :: 'n

record 'n File =
  filePath :: string
  messages :: "'n Message list"

text \<open>
  The object literal built for every message in the handler. Its fields \<^verbatim>\<open>message\<close>,
  \<^verbatim>\<open>title\<close>, \<^verbatim>\<open>file\<close>, \<^verbatim>\<open>endLine\<close> and \<^verbatim>\<open>endColumn\<close> carry the prefix \<open>a_\<close> here, the
  plain names being those of the fields of a message.
\<close>

record 'n Annotation =
  a_message :: string
  a_title :: string
  a_file :: string
  startLine :: 'n
  startColumn :: 'n
  a_endLine :: 'n
  a_endColumn :: 'n

text \<open>
  The errors \<^verbatim>\<open>spawnSync\<close> reports in the \<^verbatim>\<open>error\<close> field of its result: the program was
  not found, the process was stopped at the timeout, the process printed more than the
  buffer holds.
\<close>

datatype spawn_error = ENOENT | ETIMEDOUT | ENOBUFS

text \<open>
  What a run can fail with: an \<^verbatim>\<open>Error(message)\<close>, the \<^verbatim>\<open>SyntaxError\<close> of
  \<^verbatim>\<open>JSON.parse\<close>, the rejection of \<^verbatim>\<open>exec\<close>, whose reason is the \<^verbatim>\<open>error\<close> field of the
  spawn result (\<^verbatim>\<open>undefined\<close> when the process ran and exited by itself), or the system
  error of a file operation, named by its code.
\<close>

datatype error = Error string | SyntaxError | Rejected "spawn_error option" | SystemError string

text \<open>
  The calls a run makes to the outside, in the order it makes them: \<^verbatim>\<open>core.debug\<close>,
  \<^verbatim>\<open>spawnSync\<close> with the command (\<open>Executed\<close>, recorded whether or not a process starts),
  \<^verbatim>\<open>core.warning\<close>, \<^verbatim>\<open>core.setFailed\<close> and \<^verbatim>\<open>fs.writeFileSync\<close> with the file name and
  the summary (\<open>SummaryWritten\<close>, recorded whether or not the write succeeds).
\<close>

datatype 'n event =
    Debug string
  | Executed string
  | Warning "'n Annotation"
  | SetFailed string
  | SummaryWritten string string

section \<open>Strings\<close>

text \<open>\<^verbatim>\<open>s.split(sep)\<close> for a one-character separator: never empty, \<^verbatim>\<open>''.split('/')\<close> is \<^verbatim>\<open>['']\<close>.\<close>

fun split :: "char \<Rightarrow> string \<Rightarrow> string list" where
  "split sep [] = [[]]"
| "split sep (c # cs) =
     (if c = sep then [] # split sep cs
      else (case split sep cs of [] \<Rightarrow> [[c]] | w # ws \<Rightarrow> (c # w) # ws))"

fun startsWith :: "string \<Rightarrow> string \<Rightarrow> bool" where
  "startsWith s [] = True"
| "startsWith [] (p # ps) = False"
| "startsWith (c # cs) (p # ps) = (c = p \<and> startsWith cs ps)"

text \<open>\<^verbatim>\<open>s.includes(sub)\<close>: \<open>sub\<close> occurs in \<open>s\<close> as a contiguous run of characters.\<close>

fun includesStr :: "string \<Rightarrow> string \<Rightarrow> bool" where
  "includesStr [] sub = (sub = [])"
| "includesStr (c # cs) sub = (startsWith (c # cs) sub \<or> includesStr cs sub)"

text \<open>A non-negative integer in a template literal: its decimal digits.\<close>

definition digit :: "nat \<Rightarrow> char" where
  "digit d = char_of (48 + d)"

function showNat :: "nat \<Rightarrow> string" where
  "showNat n = (if n < 10 then [digit n] else showNat (n div 10) @ [digit (n mod 10)])"
  by pat_completeness auto
termination
  by (relation "measure id") auto

declare showNat.simps [simp del]

section \<open>Rule documentation\<close>

definition ruleUrl :: "string \<Rightarrow> string option" where
  "ruleUrl ruleName =
     (let splittedRuleName = split CHR ''/'' ruleName in
      if length splittedRuleName = 1
      then Some (''https://eslint.org/docs/rules/'' @ ruleName)
      else (case splittedRuleName of
              domain # rule # _ \<Rightarrow>
                if domain = ''jest''
                then Some (''https://github.com/jest-community/eslint-plugin-jest/blob/main/docs/rules/''
                           @ rule @ ''.md'')
                else if domain = ''testing-library''
                then Some (''https://github.com/testing-library/eslint-plugin-testing-library/blob/main/docs/rules/''
                           @ rule @ ''.md'')
                else if domain = ''@typescript-eslint''
                then Some (''https://github.com/typescript-eslint/typescript-eslint/blob/main/packages/eslint-plugin/docs/rules/''
                           @ rule @ ''.md'')
                else None
            | _ \<Rightarrow> None))"

text \<open>\<^verbatim>\<open>url ? ... : ...\<close> takes the second branch for \<^verbatim>\<open>undefined\<close> and for the empty string.\<close>

definition formatRuleMessage :: "string \<Rightarrow> string" where
  "formatRuleMessage ruleName =
     (case ruleUrl ruleName of
        Some url \<Rightarrow>
          if url \<noteq> [] then ''See '' @ url @ '' for details.''
          else ''No further rule information available.''
      | None \<Rightarrow> ''No further rule information available.'')"

section \<open>Trigger filter\<close>

text \<open>\<^verbatim>\<open>body ? ... : false\<close>: a \<^verbatim>\<open>null\<close> body and the empty body are both falsy.\<close>

definition shouldBeSkipped :: "string option \<Rightarrow> bool" where
  "shouldBeSkipped body =
     (case body of
        None \<Rightarrow> False
      | Some b \<Rightarrow>
          if b \<noteq> []
          then includesStr b ''[review skip]'' \<or> includesStr b ''[no review]'' \<or> includesStr b ''[skip review]''
          else False)"

section \<open>Summary\<close>

definition worriedEmoji :: "nat \<Rightarrow> string" where
  "worriedEmoji numberOfErrors =
     (if numberOfErrors > 100 then '':sob:''
      else if numberOfErrors > 10 then '':disappointed_relieved:''
      else '':worried:'')"

section \<open>The platform the handler runs on\<close>

text \<open>
  Everything the handler reads from outside: the action's inputs, the pull request the
  API returns, the environment variable naming the summary file, the working directory
  of the process, the programs of the operating system, the file system, the
  version-control diff, the linter, and the library functions \<^verbatim>\<open>JSON.parse\<close>,
  \<^verbatim>\<open>JSON.stringify\<close> and \<^verbatim>\<open>path.relative\<close>. None of it is code of the repository, so it
  is a parameter of the model.

  \<open>programs\<close> gives the program the operating system finds under a name, \<open>None\<close> when
  there is none, as what it does when it is started without arguments.
  \<open>writeFileSync\<close> gives the error \<^verbatim>\<open>fs.writeFileSync\<close> throws for a file name and a
  content, \<open>None\<close> when the write succeeds. \<open>gitDiff\<close> gives the changes
  \<^verbatim>\<open>git diff --name-only\<close> lists in a directory for a revision range, and \<open>linter\<close> what
  \<^verbatim>\<open>yarn -s eslint -f json\<close> does in a directory with file arguments.

  \<open>JSON_parse\<close> gives \<open>None\<close> where \<^verbatim>\<open>JSON.parse\<close> throws its \<^verbatim>\<open>SyntaxError\<close>. The handler
  casts the parsed value to \<^verbatim>\<open>Array<File>\<close> without looking at it; the model takes the
  value to have that shape.
\<close>

text \<open>The letters of \<^verbatim>\<open>git diff --diff-filter\<close>: A, C, D, M, R, T, U, X, B.\<close>

datatype change =
  Added | Copied | Deleted | Modified | Renamed | TypeChanged | Unmerged | Unknown | Broken

text \<open>
  What a process does: the status it exits with when it is left alone, what it prints
  before it ends or is stopped, and how long it runs when it is left alone, in
  milliseconds.
\<close>

record Proc =
  exitCode :: int
  printed :: string
  runtime :: nat

text \<open>The fields of the object \<^verbatim>\<open>spawnSync\<close> returns that \<^verbatim>\<open>exec\<close> reads.\<close>

record SpawnResult =
  status :: "int option"
  stdout :: string
  error :: "spawn_error option"

record PullRequest =
  body :: "string option"
  base_sha :: string
  head_sha :: string

record 'n Env =
  inputs :: "string \<rightharpoonup> string"
  owner :: string
  repo :: string
  pull_number :: nat
  pulls_get :: "error + PullRequest"
  GITHUB_STEP_SUMMARY :: "string option"
  cwd :: string
  programs :: "string \<Rightarrow> Proc option"
  writeFileSync :: "string \<Rightarrow> string \<Rightarrow> error option"
  gitDiff :: "string \<Rightarrow> string \<Rightarrow> (change \<times> string) list"
  linter :: "string \<Rightarrow> string list \<Rightarrow> Proc"
  JSON_parse :: "string \<Rightarrow> 'n File list option"
  JSON_stringify :: "'n File list \<Rightarrow> string"
  path_relative :: "string \<Rightarrow> string \<Rightarrow> string"

text \<open>
  \<^verbatim>\<open>core.getInput(name, { required })\<close>: an input that is not set reads as the empty string,
  a required input that is empty raises, and the value is trimmed. Of the white space
  \<^verbatim>\<open>String.prototype.trim\<close> removes, \<open>isSpace\<close> has the characters a \<open>char\<close> can hold: the
  strings of this model are sequences of 8-bit code units.
\<close>

definition isSpace :: "char \<Rightarrow> bool" where
  "isSpace c =
     (c \<in> set [CHR '' '', CHR 0x09, CHR 0x0A, CHR 0x0B, CHR 0x0C, CHR 0x0D, CHR 0xA0])"

definition trim :: "string \<Rightarrow> string" where
  "trim s = rev (dropWhile isSpace (rev (dropWhile isSpace s)))"

definition getInput :: "(string \<rightharpoonup> string) \<Rightarrow> string \<Rightarrow> bool \<Rightarrow> error + string" where
  "getInput ins name required =
     (let val = (case ins name of None \<Rightarrow> [] | Some v \<Rightarrow> v) in
      if required \<and> val = []
      then Inl (Error (''Input required and not supplied: '' @ name))
      else Inr (trim val))"

text \<open>
  \<^verbatim>\<open>spawnSync(command, { timeout })\<close>, called with no argument list and without the
  \<^verbatim>\<open>shell\<close> option: the whole of \<open>command\<close> is the name of the program to start, and no
  shell reads it.
  \<^item> When there is no program of that name, the result has no exit status and the error
    \<^verbatim>\<open>ENOENT\<close> (its \<^verbatim>\<open>stdout\<close> is \<^verbatim>\<open>null\<close>, the empty string here; \<open>exec\<close> does not read it).
  \<^item> A process that prints more than \<^verbatim>\<open>maxBuffer\<close> bytes, 1024 * 1024 by default, is
    stopped: no exit status, the error \<^verbatim>\<open>ENOBUFS\<close>, the output cut at the limit.
  \<^item> A process that is still running when the timeout expires is stopped: no exit
    status, the error \<^verbatim>\<open>ETIMEDOUT\<close>.
  \<^item> Otherwise the result carries the exit status and no error.
\<close>

definition maxBuffer :: nat where
  "maxBuffer = 1024 * 1024"

definition spawnSync :: "(string \<Rightarrow> Proc option) \<Rightarrow> string \<Rightarrow> nat \<Rightarrow> SpawnResult" where
  "spawnSync progs command timeout =
     (case progs command of
        None \<Rightarrow> \<lparr>status = None, stdout = [], error = Some ENOENT\<rparr>
      | Some p \<Rightarrow>
          if length (printed p) > maxBuffer
          then \<lparr>status = None, stdout = take maxBuffer (printed p), error = Some ENOBUFS\<rparr>
          else if runtime p > timeout
          then \<lparr>status = None, stdout = printed p, error = Some ETIMEDOUT\<rparr>
          else \<lparr>status = Some (exitCode p), stdout = printed p, error = None\<rparr>)"

section \<open>The command of \<^verbatim>\<open>lintDiff\<close>\<close>

text \<open>
  The text of the command, as the latest revision builds it. It is written as a shell
  pipeline. The first two revisions have a shell run it; the latest revision hands it
  to \<^verbatim>\<open>spawnSync\<close> as the name of a program.
\<close>

definition lintCommand :: "string \<Rightarrow> string \<Rightarrow> string \<Rightarrow> string \<Rightarrow> string" where
  "lintCommand baseSha headSha prefix workingDirectory =
     ''cd ./'' @ workingDirectory @ ''/'' @ prefix
     @ ''; git diff --name-only --diff-filter=ACMR '' @ baseSha @ ''...'' @ headSha
     @ '' | grep -E '^'' @ prefix @ ''/(.*).[jt]s(x)?$'|sed 's,^'' @ prefix
     @ ''/,,'|xargs yarn -s eslint -f json''"

section \<open>The command read by a shell\<close>

text \<open>
  The first two revisions give the command to \<^verbatim>\<open>child_process.exec\<close>, which has a shell
  run it. What a shell does with the pipeline is modelled stage by stage:
  \<^item> \<^verbatim>\<open>git diff --name-only --diff-filter=ACMR\<close> with the revision range prints the paths
    of the changes of kind A, C, M or R;
  \<^item> \<^verbatim>\<open>grep -E '^prefix/(.*).[jt]s(x)?$'\<close> keeps the lines the expression matches;
  \<^item> \<^verbatim>\<open>sed 's,^prefix/,,'\<close> removes the leading \<^verbatim>\<open>prefix/\<close> of a line;
  \<^item> \<^verbatim>\<open>xargs yarn -s eslint -f json\<close> runs the linter on the lines as arguments.
  The prefix is read as literal text: this is the pipeline for a prefix that holds no
  character special in a regular expression, which \<^verbatim>\<open>grep\<close> and \<^verbatim>\<open>sed\<close> would read as such.
  File names hold no white space or quotes, which \<^verbatim>\<open>xargs\<close> would split. A failing
  \<^verbatim>\<open>git diff\<close> prints no path, and the pipeline goes on with none.
\<close>

definition diffFilterACMR :: "change \<Rightarrow> bool" where
  "diffFilterACMR c = (c = Added \<or> c = Copied \<or> c = Modified \<or> c = Renamed)"

text \<open>
  The part of extended regular expressions the pattern uses: a literal character, \<^verbatim>\<open>.\<close>,
  a bracket expression, \<^verbatim>\<open>.*\<close>, \<^verbatim>\<open>(r)?\<close> and concatenation. \<open>rests r s\<close> lists what is left
  of \<open>s\<close> after each of its prefixes that \<open>r\<close> matches.
\<close>

datatype rx = Lit char | AnyChar | OneOf "char list" | AnyStar | Opt rx | Cat rx rx

fun suffixes :: "string \<Rightarrow> string list" where
  "suffixes [] = [[]]"
| "suffixes (c # cs) = (c # cs) # suffixes cs"

fun rests :: "rx \<Rightarrow> string \<Rightarrow> string list" where
  "rests (Lit c) s = (case s of [] \<Rightarrow> [] | x # xs \<Rightarrow> if x = c then [xs] else [])"
| "rests AnyChar s = (case s of [] \<Rightarrow> [] | x # xs \<Rightarrow> [xs])"
| "rests (OneOf cs) s = (case s of [] \<Rightarrow> [] | x # xs \<Rightarrow> if x \<in> set cs then [xs] else [])"
| "rests AnyStar s = suffixes s"
| "rests (Opt r) s = s # rests r s"
| "rests (Cat r1 r2) s = concat (map (rests r2) (rests r1 s))"

fun lits :: "string \<Rightarrow> rx \<Rightarrow> rx" where
  "lits [] r = r"
| "lits (c # cs) r = Cat (Lit c) (lits cs r)"

text \<open>\<^verbatim>\<open>^prefix/(.*).[jt]s(x)?$\<close>\<close>

definition grepPattern :: "string \<Rightarrow> rx" where
  "grepPattern prefix =
     lits prefix
       (Cat (Lit CHR ''/'')
         (Cat AnyStar
           (Cat AnyChar
             (Cat (OneOf ''jt'')
               (Cat (Lit CHR ''s'') (Opt (Lit CHR ''x'')))))))"

text \<open>The pattern is anchored at both ends: the whole line has to match.\<close>

definition grepE :: "rx \<Rightarrow> string \<Rightarrow> bool" where
  "grepE r ln = ([] \<in> set (rests r ln))"

definition sed :: "string \<Rightarrow> string \<Rightarrow> string" where
  "sed prefix ln =
     (if startsWith ln (prefix @ ''/'') then drop (length prefix + 1) ln else ln)"

text \<open>The arguments the linter is started with: the changed files the pipeline lets through.\<close>

definition changedFiles :: "(change \<times> string) list \<Rightarrow> string \<Rightarrow> string list" where
  "changedFiles diff prefix =
     map (sed prefix)
       (filter (grepE (grepPattern prefix))
         (map snd (filter (\<lambda>entry. diffFilterACMR (fst entry)) diff)))"

text \<open>The process the last stage of the pipeline starts in a directory, for a revision range.\<close>

definition shellPipeline :: "'n Env \<Rightarrow> string \<Rightarrow> string \<Rightarrow> string \<Rightarrow> Proc" where
  "shellPipeline env dir revisions prefix =
     linter env dir (changedFiles (gitDiff env dir revisions) prefix)"

text \<open>
  \<open>lintDiff\<close> of the first two revisions. Their command changes to \<^verbatim>\<open>./prefix\<close> and takes
  the range \<^verbatim>\<open>base..head\<close>; their \<open>exec\<close> resolves with what the pipeline printed, up to
  the \<^verbatim>\<open>maxBuffer\<close> of \<^verbatim>\<open>child_process.exec\<close>, whatever its exit status, and sets no
  timeout.
\<close>

definition lintDiff_shell ::
  "'n Env \<Rightarrow> string \<Rightarrow> string \<Rightarrow> string \<Rightarrow> error + 'n File list" where
  "lintDiff_shell env baseSha headSha prefix =
     (let result = take maxBuffer
            (printed (shellPipeline env (''./'' @ prefix) (baseSha @ ''..'' @ headSha) prefix)) in
      case JSON_parse env result of None \<Rightarrow> Inl SyntaxError | Some files \<Rightarrow> Inr files)"


section \<open>Running the command in the latest revision\<close>

text \<open>execution timeout in milliseconds\<close>

definition LINTER_TIMEOUT :: nat where
  "LINTER_TIMEOUT = 10 * 60 * 1000"

text \<open>
  \<open>exec\<close> hands the text of the command to \<^verbatim>\<open>spawnSync\<close> as it is, resolves with the
  output when the exit status is 0 and rejects with the \<^verbatim>\<open>error\<close> field of the result
  otherwise.
\<close>

definition exec :: "'n Env \<Rightarrow> string \<Rightarrow> error + string" where
  "exec env command =
     (let result = spawnSync (programs env) command LINTER_TIMEOUT in
      if status result = Some 0 then Inr (stdout result) else Inl (Rejected (error result)))"

definition lintDiff ::
  "'n Env \<Rightarrow> string \<Rightarrow> string \<Rightarrow> string \<Rightarrow> string \<Rightarrow> 'n event list \<times> (error + 'n File list)" where
  "lintDiff env baseSha headSha prefix workingDirectory =
     (let cmd = lintCommand baseSha headSha prefix workingDirectory;
          started = [Debug (''Executing: '' @ cmd), Executed cmd] in
      case exec env cmd of
        Inl e \<Rightarrow> (started, Inl e)
      | Inr result \<Rightarrow>
          (started @ [Debug (''Got result: '' @ result)],
           case JSON_parse env result of None \<Rightarrow> Inl SyntaxError | Some files \<Rightarrow> Inr files))"

section \<open>Formatting and reporting\<close>

definition normalizeFilename :: "'n Env \<Rightarrow> string \<Rightarrow> string \<Rightarrow> string" where
  "normalizeFilename env filename workingDirectory =
     path_relative env (cwd env @ ''/'' @ workingDirectory) filename"

definition filesWithErrors :: "'n File list \<Rightarrow> 'n File list" where
  "filesWithErrors results = filter (\<lambda>result. length (messages result) > 0) results"

definition totalErrors :: "'n File list \<Rightarrow> nat" where
  "totalErrors files = foldl (\<lambda>prev cur. prev + cur) 0 (map (\<lambda>file. length (messages file)) files)"

definition annotation :: "'n Env \<Rightarrow> string \<Rightarrow> 'n File \<Rightarrow> 'n Message \<Rightarrow> 'n Annotation" where
  "annotation env workingDirectory file m =
     \<lparr>a_message = formatRuleMessage (ruleId m),
      a_title = message m,
      a_file = normalizeFilename env (filePath file) workingDirectory,
      startLine = line m,
      startColumn = column m,
      a_endLine = endLine m,
      a_endColumn = endColumn m\<rparr>"

definition annotations :: "'n Env \<Rightarrow> string \<Rightarrow> 'n File list \<Rightarrow> 'n Annotation list" where
  "annotations env workingDirectory files =
     concat (map (\<lambda>file. map (annotation env workingDirectory file) (messages file)) files)"

text \<open>
  \<open>writeSummary\<close> raises when \<^verbatim>\<open>process.env.GITHUB_STEP_SUMMARY\<close> is not set, before it
  calls \<^verbatim>\<open>fs.writeFileSync\<close>; with the variable set it makes the call and fails with the
  error of the call, if there is one.
\<close>

definition writeSummary :: "'n Env \<Rightarrow> string \<Rightarrow> 'n event list \<times> (error + unit)" where
  "writeSummary env summary =
     (case GITHUB_STEP_SUMMARY env of
        None \<Rightarrow> ([], Inl (Error ''No step summary filename passed in environment!''))
      | Some filename \<Rightarrow>
          ([SummaryWritten filename summary],
           case writeFileSync env filename summary of None \<Rightarrow> Inr () | Some e \<Rightarrow> Inl e))"

text \<open>The handler from the filtering of the lint results on.\<close>

definition report :: "'n Env \<Rightarrow> string \<Rightarrow> 'n File list \<Rightarrow> 'n event list \<times> (error + unit)" where
  "report env workingDirectory results =
     (let files = filesWithErrors results;
          logged = [Debug (''Files with errors: '' @ JSON_stringify env files)];
          total = totalErrors files in
      if total > 0
      then
        (let emitted = logged @ map Warning (annotations env workingDirectory files)
               @ [SetFailed (''Found '' @ showNat total @ '' linter hints in the changed code.'')] in
         case writeSummary env
                (''## Found '' @ showNat total @ '' linter hints in the changed code. ''
                 @ worriedEmoji total) of
           (written, outcome) \<Rightarrow> (emitted @ written, outcome))
      else
        (case writeSummary env ''## Your code looks awesome! :rocket:'' of
           (written, outcome) \<Rightarrow> (logged @ written, outcome)))"

section \<open>The handler\<close>

text \<open>
  The handler of \<^verbatim>\<open>pull_request.opened\<close> and \<^verbatim>\<open>pull_request.synchronize\<close>. It returns the
  events of the run and how the run ended: \<open>Inl\<close> with the error the promise is
  rejected with, or \<open>Inr ()\<close>. \<^verbatim>\<open>getInput\<close> never returns \<^verbatim>\<open>null\<close> or \<^verbatim>\<open>undefined\<close>, so the
  \<^verbatim>\<open>?? '.'\<close> after the optional input never takes its right-hand side.
\<close>

definition handler :: "'n Env \<Rightarrow> 'n event list \<times> (error + unit)" where
  "handler env =
     (case getInput (inputs env) ''prefix'' True of
        Inl e \<Rightarrow> ([], Inl e)
      | Inr prefix \<Rightarrow>
     (case getInput (inputs env) ''workingDirectory'' False of
        Inl e \<Rightarrow> ([], Inl e)
      | Inr workingDirectory \<Rightarrow>
     (let started = [Debug (''Started for PR '' @ showNat (pull_number env) @ '' in repo ''
                            @ repo env @ '' from '' @ owner env @ ''.'')] in
      case pulls_get env of
        Inl e \<Rightarrow> (started, Inl e)
      | Inr pr \<Rightarrow>
     (let fetched = started @ [Debug (''Base SHA: '' @ base_sha pr @ '', head SHA: '' @ head_sha pr)] in
      if shouldBeSkipped (body pr) then (fetched @ [Debug ''Skipping PR.''], Inr ())
      else
        (case lintDiff env (base_sha pr) (head_sha pr) prefix workingDirectory of
           (linted, Inl e) \<Rightarrow> (fetched @ linted, Inl e)
         | (linted, Inr results) \<Rightarrow>
             (case report env workingDirectory results of
                (reported, outcome) \<Rightarrow> (fetched @ linted @ reported, outcome)))))))"

section \<open>Observing a run\<close>

text \<open>The annotations a run emitted: the arguments of its \<^verbatim>\<open>core.warning\<close> calls, in order.\<close>

fun warnings :: "'n event list \<Rightarrow> 'n Annotation list" where
  "warnings [] = []"
| "warnings (Warning a # es) = a # warnings es"
| "warnings (e # es) = warnings es"

section \<open>A concrete run\<close>

text \<open>
  The scenario of the specification: base \<^verbatim>\<open>A\<close>, head \<^verbatim>\<open>B\<close>, prefix \<^verbatim>\<open>pkg\<close>, and a linter
  report with one finding in \<^verbatim>\<open>a.ts\<close> and none in \<^verbatim>\<open>b.ts\<close>. The pull-request body, the
  summary destination, the diff and the linter's behaviour are left open. The linter's
  output is a stand-in for the JSON text, read by \<open>scenarioParse\<close>. The operating system
  has no program whose name is the text of a pipeline, and writing a file succeeds.
\<close>

definition finding :: "nat Message" where
  "finding =
     \<lparr>ruleId = ''no-unused-vars'', severity = 1, message = ''x is defined but never used'',
      line = 3, column = 7, nodeType = ''Identifier'', messageId = ''unusedVar'',
      endLine = 3, endColumn = 8\<rparr>"

definition lintReport :: "nat File list" where
  "lintReport =
     [\<lparr>filePath = ''/work/pkg/a.ts'', messages = [finding]\<rparr>,
      \<lparr>filePath = ''/work/pkg/b.ts'', messages = []\<rparr>]"

definition scenarioParse :: "string \<Rightarrow> nat File list option" where
  "scenarioParse text =
     (if text = ''[]'' then Some []
      else if text = ''[a.ts: 1, b.ts: 0]'' then Some lintReport
      else None)"

definition scenario ::
  "string option \<Rightarrow> string option \<Rightarrow> (change \<times> string) list \<Rightarrow> (string list \<Rightarrow> Proc) \<Rightarrow> nat Env" where
  "scenario prBody summaryFile diff lint =
     \<lparr>inputs = [''prefix'' \<mapsto> ''pkg''],
      owner = ''acme'',
      repo = ''web'',
      pull_number = 12,
      pulls_get = Inr \<lparr>body = prBody, base_sha = ''A'', head_sha = ''B''\<rparr>,
      GITHUB_STEP_SUMMARY = summaryFile,
      cwd = ''/work'',
      programs = (\<lambda>name. None),
      writeFileSync = (\<lambda>filename content. None),
      gitDiff = (\<lambda>dir revisions. diff),
      linter = (\<lambda>dir files. lint files),
      JSON_parse = scenarioParse,
      JSON_stringify = (\<lambda>files. ''[..]''),
      path_relative = (\<lambda>from to. drop (length from) to)\<rparr>"

definition twoChanges :: "(change \<times> string) list" where
  "twoChanges = [(Modified, ''pkg/a.ts''), (Added, ''pkg/b.ts'')]"

definition lintsFine :: "string list \<Rightarrow> Proc" where
  "lintsFine files = \<lparr>exitCode = 0, printed = ''[a.ts: 1, b.ts: 0]'', runtime = 1000\<rparr>"


text \<open>
  The scenario on an operating system that does have a program under every name, one
  that prints the linter's report: the way for the latest revision to get a lint
  result list.
\<close>

definition reporting :: "nat Env \<Rightarrow> nat Env" where
  "reporting env = env\<lparr>programs := (\<lambda>name. Some (lintsFine []))\<rparr>"

section \<open>Auxiliary facts\<close>

subsection \<open>Counting and the annotations of a trace\<close>

lemma getInput_optional:
  "getInput ins name False = Inr (trim (case ins name of None \<Rightarrow> [] | Some v \<Rightarrow> v))"
  by (simp add: getInput_def)

lemma warnings_append: "warnings (xs @ ys) = warnings xs @ warnings ys"
  by (induction xs rule: warnings.induct) simp_all

lemma warnings_map_Warning: "warnings (map Warning as) = as"
  by (induction as) simp_all

lemma totalErrors_sum:
  "totalErrors files = sum_list (map (\<lambda>file. length (messages file)) files)"
proof -
  have "foldl (\<lambda>prev cur. prev + cur) a ns = a + sum_list ns" for a :: nat and ns
    by (induction ns arbitrary: a) simp_all
  then show ?thesis by (simp add: totalErrors_def)
qed

lemma length_annotations:
  "length (annotations env wd files) = sum_list (map (\<lambda>file. length (messages file)) files)"
  by (induction files) (simp_all add: annotations_def)

lemma totalErrors_zero:
  "totalErrors (filesWithErrors results) = 0 \<longleftrightarrow> filesWithErrors results = []"
  by (induction results) (simp_all add: totalErrors_sum filesWithErrors_def)

lemma warnings_lintDiff: "warnings (fst (lintDiff env b h p wd)) = []"
  by (simp add: lintDiff_def Let_def split: sum.splits option.splits)

lemma warnings_writeSummary: "warnings (fst (writeSummary env summary)) = []"
  by (simp add: writeSummary_def split: option.splits)

lemma report_eq:
  "report env wd results =
     (let files = filesWithErrors results;
          logged = [Debug (''Files with errors: '' @ JSON_stringify env files)];
          total = totalErrors files;
          failure = ''## Found '' @ showNat total @ '' linter hints in the changed code. ''
                    @ worriedEmoji total in
      if total > 0
      then (logged @ map Warning (annotations env wd files)
              @ [SetFailed (''Found '' @ showNat total @ '' linter hints in the changed code.'')]
              @ fst (writeSummary env failure),
            snd (writeSummary env failure))
      else (logged @ fst (writeSummary env ''## Your code looks awesome! :rocket:''),
            snd (writeSummary env ''## Your code looks awesome! :rocket:'')))"
  by (simp add: report_def Let_def split: prod.splits)

lemma warnings_report:
  "warnings (fst (report env wd results)) = annotations env wd (filesWithErrors results)"
proof (cases "totalErrors (filesWithErrors results) > 0")
  case True
  then show ?thesis
    by (simp add: report_eq Let_def warnings_append warnings_map_Warning warnings_writeSummary)
next
  case False
  then have "filesWithErrors results = []" by (simp add: totalErrors_zero)
  then show ?thesis
    by (simp add: report_eq Let_def totalErrors_def annotations_def warnings_append
        warnings_writeSummary)
qed

text \<open>The two ways a run that has its inputs and its pull request goes on.\<close>

lemma handler_linted:
  assumes "getInput (inputs env) ''prefix'' True = Inr prefix"
    and "getInput (inputs env) ''workingDirectory'' False = Inr wd"
    and "pulls_get env = Inr pr"
    and "\<not> shouldBeSkipped (body pr)"
  shows "handler env =
    (let fetched = [Debug (''Started for PR '' @ showNat (pull_number env) @ '' in repo ''
                            @ repo env @ '' from '' @ owner env @ ''.''),
                    Debug (''Base SHA: '' @ base_sha pr @ '', head SHA: '' @ head_sha pr)];
         linted = lintDiff env (base_sha pr) (head_sha pr) prefix wd in
     case snd linted of
       Inl e \<Rightarrow> (fetched @ fst linted, Inl e)
     | Inr results \<Rightarrow>
         (fetched @ fst linted @ fst (report env wd results), snd (report env wd results)))"
  using assms by (simp add: handler_def Let_def split: prod.splits sum.splits)

lemma handler_skipped:
  assumes "getInput (inputs env) ''prefix'' True = Inr prefix"
    and "pulls_get env = Inr pr"
    and "shouldBeSkipped (body pr)"
  shows "handler env =
    ([Debug (''Started for PR '' @ showNat (pull_number env) @ '' in repo ''
                            @ repo env @ '' from '' @ owner env @ ''.''),
      Debug (''Base SHA: '' @ base_sha pr @ '', head SHA: '' @ head_sha pr),
      Debug ''Skipping PR.''], Inr ())"
  using assms by (simp add: handler_def Let_def getInput_optional)

text \<open>The scenario has its inputs and its pull request, and its linter report parses.\<close>

lemma scenario_prefix:
  "getInput (inputs (scenario prBody summaryFile diff lint)) ''prefix'' True = Inr ''pkg''"
  by (simp add: scenario_def getInput_def trim_def isSpace_def)

lemma scenario_workingDirectory:
  "getInput (inputs (scenario prBody summaryFile diff lint)) ''workingDirectory'' False = Inr []"
  by (simp add: scenario_def getInput_def trim_def)

lemma scenario_pull:
  "pulls_get (scenario prBody summaryFile diff lint)
     = Inr \<lparr>body = prBody, base_sha = ''A'', head_sha = ''B''\<rparr>"
  by (simp add: scenario_def)

lemma reporting_fields:
  "inputs (reporting env) = inputs env"
  "pulls_get (reporting env) = pulls_get env"
  "GITHUB_STEP_SUMMARY (reporting env) = GITHUB_STEP_SUMMARY env"
  "JSON_parse (reporting env) = JSON_parse env"
  "programs (reporting env) name = Some (lintsFine [])"
  by (simp_all add: reporting_def)

lemma scenario_parse: "JSON_parse (scenario prBody summaryFile diff lint) = scenarioParse"
  by (simp add: scenario_def)

lemma scenario_summary: "GITHUB_STEP_SUMMARY (scenario prBody summaryFile diff lint) = summaryFile"
  by (simp add: scenario_def)

lemma scenario_programs: "programs (scenario prBody summaryFile diff lint) name = None"
  by (simp add: scenario_def)


lemma reporting_lintsFine:
  "snd (lintDiff (reporting (scenario prBody summaryFile diff lint)) ''A'' ''B'' ''pkg'' [])
     = Inr lintReport"
  by (simp add: lintDiff_def Let_def exec_def spawnSync_def LINTER_TIMEOUT_def maxBuffer_def
      reporting_fields scenario_parse lintsFine_def scenarioParse_def)

subsection \<open>The steps of a run\<close>

lemma handler_no_prefix:
  "getInput (inputs env) ''prefix'' True = Inl e \<Longrightarrow> handler env = ([], Inl e)"
  by (simp add: handler_def)

lemma lintDiff_fst:
  "fst (lintDiff env b h p wd) =
     [Debug (''Executing: '' @ lintCommand b h p wd), Executed (lintCommand b h p wd)]
     @ (case exec env (lintCommand b h p wd) of
          Inl e \<Rightarrow> []
        | Inr result \<Rightarrow> [Debug (''Got result: '' @ result)])"
  by (simp add: lintDiff_def Let_def split: sum.splits)

lemma lintDiff_snd:
  "snd (lintDiff env b h p wd) =
     (case exec env (lintCommand b h p wd) of
        Inl e \<Rightarrow> Inl e
      | Inr result \<Rightarrow>
          (case JSON_parse env result of None \<Rightarrow> Inl SyntaxError | Some files \<Rightarrow> Inr files))"
  by (simp add: lintDiff_def Let_def split: sum.splits)

text \<open>The results of \<^verbatim>\<open>spawnSync\<close> by what the operating system has under the name.\<close>

lemma spawnSync_ENOENT:
  "progs command = None \<Longrightarrow>
   spawnSync progs command timeout = \<lparr>status = None, stdout = [], error = Some ENOENT\<rparr>"
  by (simp add: spawnSync_def)

lemma spawnSync_status:
  "status (spawnSync progs command timeout) = Some 0 \<longleftrightarrow>
     (\<exists>p. progs command = Some p \<and> length (printed p) \<le> maxBuffer
          \<and> runtime p \<le> timeout \<and> exitCode p = 0)"
  by (auto simp: spawnSync_def split: option.splits)

lemma spawnSync_stdout:
  "status (spawnSync progs command timeout) = Some 0 \<Longrightarrow> progs command = Some p \<Longrightarrow>
   stdout (spawnSync progs command timeout) = printed p"
  by (auto simp: spawnSync_def split: if_splits)

lemma spawnSync_error:
  "progs command = Some p \<Longrightarrow>
   error (spawnSync progs command timeout) =
     (if maxBuffer < length (printed p) then Some ENOBUFS
      else if timeout < runtime p then Some ETIMEDOUT
      else None)"
  by (simp add: spawnSync_def)

lemma lintDiff_quiet:
  "SummaryWritten f s \<notin> set (fst (lintDiff env b h p wd))"
  "SetFailed m \<notin> set (fst (lintDiff env b h p wd))"
  by (simp_all add: lintDiff_fst split: sum.splits)

subsection \<open>Strings\<close>

lemma startsWith_iff: "startsWith s p \<longleftrightarrow> (\<exists>t. s = p @ t)"
  by (induction s p rule: startsWith.induct) auto

lemma includesStr_iff: "includesStr s sub \<longleftrightarrow> (\<exists>ps ss. s = ps @ sub @ ss)"
proof (induction s)
  case Nil
  then show ?case by auto
next
  case (Cons c cs)
  show ?case
  proof
    assume "includesStr (c # cs) sub"
    then consider "startsWith (c # cs) sub" | "includesStr cs sub" by auto
    then show "\<exists>ps ss. c # cs = ps @ sub @ ss"
    proof cases
      case 1
      then obtain t where "c # cs = sub @ t" by (auto simp: startsWith_iff)
      then have "c # cs = [] @ sub @ t" by simp
      then show ?thesis by blast
    next
      case 2
      then obtain ps ss where "cs = ps @ sub @ ss" using Cons.IH by blast
      then have "c # cs = (c # ps) @ sub @ ss" by simp
      then show ?thesis by blast
    qed
  next
    assume "\<exists>ps ss. c # cs = ps @ sub @ ss"
    then obtain ps ss where eq: "c # cs = ps @ sub @ ss" by blast
    show "includesStr (c # cs) sub"
    proof (cases ps)
      case Nil
      with eq have "startsWith (c # cs) sub" by (auto simp: startsWith_iff)
      then show ?thesis by simp
    next
      case (Cons p ps')
      with eq have "cs = ps' @ sub @ ss" by simp
      then have "includesStr cs sub" using Cons.IH by blast
      then show ?thesis by simp
    qed
  qed
qed

lemma split_nonempty: "split sep s \<noteq> []"
  by (induction s) (auto split: list.splits)

lemma split_no_sep: "sep \<notin> set s \<Longrightarrow> split sep s = [s]"
  by (induction s) auto

lemma split_at_first:
  "sep \<notin> set ns \<Longrightarrow> split sep (ns @ sep # rest) = ns # split sep rest"
  by (induction ns) auto

lemma hd_split: "hd (split sep s) = takeWhile (\<lambda>c. c \<noteq> sep) s"
  by (induction s) (auto simp: split_nonempty split: list.splits)

lemma split_two:
  assumes "sep \<notin> set ns"
  shows "\<exists>more. split sep (ns @ sep # rest) = ns # takeWhile (\<lambda>c. c \<noteq> sep) rest # more"
proof -
  obtain w ws where ws: "split sep rest = w # ws"
    using split_nonempty[of sep rest] by (cases "split sep rest") auto
  then have "w = takeWhile (\<lambda>c. c \<noteq> sep) rest" using hd_split[of sep rest] by simp
  with ws show ?thesis using assms by (simp add: split_at_first)
qed

subsection \<open>Rule documentation\<close>

lemma ruleUrl_unnamespaced:
  "CHR ''/'' \<notin> set ruleName \<Longrightarrow>
   ruleUrl ruleName = Some (''https://eslint.org/docs/rules/'' @ ruleName)"
  by (simp add: ruleUrl_def split_no_sep)

lemma ruleUrl_namespaced:
  assumes "CHR ''/'' \<notin> set ns"
  shows "ruleUrl (ns @ CHR ''/'' # rest) =
    (let rule = takeWhile (\<lambda>c. c \<noteq> CHR ''/'') rest in
     if ns = ''jest''
     then Some (''https://github.com/jest-community/eslint-plugin-jest/blob/main/docs/rules/''
                @ rule @ ''.md'')
     else if ns = ''testing-library''
     then Some (''https://github.com/testing-library/eslint-plugin-testing-library/blob/main/docs/rules/''
                @ rule @ ''.md'')
     else if ns = ''@typescript-eslint''
     then Some (''https://github.com/typescript-eslint/typescript-eslint/blob/main/packages/eslint-plugin/docs/rules/''
                @ rule @ ''.md'')
     else None)"
proof -
  obtain more where s:
    "split CHR ''/'' (ns @ CHR ''/'' # rest) = ns # takeWhile (\<lambda>c. c \<noteq> CHR ''/'') rest # more"
    using split_two[OF assms] by blast
  show ?thesis unfolding ruleUrl_def Let_def s by simp
qed

lemma ruleUrl_not_empty: "ruleUrl ruleName = Some url \<Longrightarrow> url \<noteq> []"
  by (auto simp: ruleUrl_def Let_def split: if_splits list.splits)

subsection \<open>Runs that reach the report\<close>

lemma showNat_1: "showNat (Suc 0) = ''1''"
  by code_simp

lemma handler_reported:
  assumes "getInput (inputs env) ''prefix'' True = Inr prefix"
    and "getInput (inputs env) ''workingDirectory'' False = Inr wd"
    and "pulls_get env = Inr pr"
    and "\<not> shouldBeSkipped (body pr)"
    and "snd (lintDiff env (base_sha pr) (head_sha pr) prefix wd) = Inr results"
  shows "handler env =
    ([Debug (''Started for PR '' @ showNat (pull_number env) @ '' in repo ''
                            @ repo env @ '' from '' @ owner env @ ''.''),
      Debug (''Base SHA: '' @ base_sha pr @ '', head SHA: '' @ head_sha pr)]
     @ fst (lintDiff env (base_sha pr) (head_sha pr) prefix wd)
     @ fst (report env wd results), snd (report env wd results))"
  unfolding handler_linted[OF assms(1-4)] Let_def assms(5) by simp

lemma handler_lint_failed:
  assumes "getInput (inputs env) ''prefix'' True = Inr prefix"
    and "getInput (inputs env) ''workingDirectory'' False = Inr wd"
    and "pulls_get env = Inr pr"
    and "\<not> shouldBeSkipped (body pr)"
    and "snd (lintDiff env (base_sha pr) (head_sha pr) prefix wd) = Inl e"
  shows "handler env =
    ([Debug (''Started for PR '' @ showNat (pull_number env) @ '' in repo ''
                            @ repo env @ '' from '' @ owner env @ ''.''),
      Debug (''Base SHA: '' @ base_sha pr @ '', head SHA: '' @ head_sha pr)]
     @ fst (lintDiff env (base_sha pr) (head_sha pr) prefix wd), Inl e)"
  unfolding handler_linted[OF assms(1-4)] Let_def assms(5) by simp

lemma Executed_lintDiff: "Executed (lintCommand b h p wd) \<in> set (fst (lintDiff env b h p wd))"
  by (simp add: lintDiff_fst)

lemma SummaryWritten_writeSummary:
  "GITHUB_STEP_SUMMARY env = None \<Longrightarrow> writeSummary env summary
     = ([], Inl (Error ''No step summary filename passed in environment!''))"
  by (simp add: writeSummary_def)

lemma report_unconfigured:
  assumes "GITHUB_STEP_SUMMARY env = None"
  shows "snd (report env wd results) = Inl (Error ''No step summary filename passed in environment!'')
    \<and> (\<forall>f s. SummaryWritten f s \<notin> set (fst (report env wd results)))
    \<and> (0 < totalErrors (filesWithErrors results) \<longrightarrow>
         SetFailed (''Found '' @ showNat (totalErrors (filesWithErrors results))
                    @ '' linter hints in the changed code.'') \<in> set (fst (report env wd results)))"
  by (auto simp: report_eq Let_def SummaryWritten_writeSummary[OF assms])


lemma usual_body:
  "\<not> shouldBeSkipped (body \<lparr>body = Some ''Fix the parser'', base_sha = ''A'', head_sha = ''B''\<rparr>)"
  by (simp add: shouldBeSkipped_def)


subsection \<open>What the lint command comes to\<close>

lemma lintDiff_outcome:
  "snd (lintDiff env b h p wd) =
     (case programs env (lintCommand b h p wd) of
        None \<Rightarrow> Inl (Rejected (Some ENOENT))
      | Some proc \<Rightarrow>
          if maxBuffer < length (printed proc) then Inl (Rejected (Some ENOBUFS))
          else if LINTER_TIMEOUT < runtime proc then Inl (Rejected (Some ETIMEDOUT))
          else if exitCode proc \<noteq> 0 then Inl (Rejected None)
          else (case JSON_parse env (printed proc) of
                  None \<Rightarrow> Inl SyntaxError
                | Some files \<Rightarrow> Inr files))"
  by (simp add: lintDiff_snd exec_def spawnSync_def Let_def split: option.splits)

lemma SummaryWritten_report_unconfigured:
  "GITHUB_STEP_SUMMARY env = None \<Longrightarrow> SummaryWritten f s \<notin> set (fst (report env wd results))"
  using report_unconfigured[of env wd results] by blast



subsection \<open>The pattern of the pipeline\<close>

text \<open>
  The lines the pattern matches are those made of the prefix, a \<^verbatim>\<open>/\<close>, any text, one
  character of any kind, \<^verbatim>\<open>j\<close> or \<^verbatim>\<open>t\<close>, an \<^verbatim>\<open>s\<close> and possibly an \<^verbatim>\<open>x\<close>; and the files
  handed to the linter are the changes of kind A, C, M or R with such a path, without
  the prefix and its \<^verbatim>\<open>/\<close>.
\<close>

lemma rests_lits:
  "rests (lits p r) s = (if startsWith s p then rests r (drop (length p) s) else [])"
proof (induction p arbitrary: s)
  case Nil
  then show ?case by simp
next
  case (Cons c p)
  then show ?case by (cases s) simp_all
qed

lemma set_suffixes: "set (suffixes s) = {t. \<exists>u. s = u @ t}"
proof (induction s)
  case Nil
  then show ?case by simp
next
  case (Cons c cs)
  have "{t. \<exists>u. c # cs = u @ t} = insert (c # cs) {t. \<exists>u. cs = u @ t}"
    by (auto simp: Cons_eq_append_conv)
  with Cons show ?case by simp
qed

lemma extension_match:
  "[] \<in> set (rests (Cat AnyChar (Cat (OneOf ''jt'') (Cat (Lit CHR ''s'') (Opt (Lit CHR ''x''))))) t)
   \<longleftrightarrow> (\<exists>c k x. t = [c, k, CHR ''s''] @ x \<and> (k = CHR ''j'' \<or> k = CHR ''t'')
                \<and> (x = [] \<or> x = ''x''))"
proof (cases t)
  case Nil
  then show ?thesis by simp
next
  case t1: (Cons c t1)
  show ?thesis
  proof (cases t1)
    case Nil
    with t1 show ?thesis by simp
  next
    case t2: (Cons k t2)
    show ?thesis
    proof (cases t2)
      case Nil
      with t1 t2 show ?thesis by simp
    next
      case t3: (Cons s t3)
      show ?thesis
      proof (cases t3)
        case Nil
        with t1 t2 t3 show ?thesis by auto
      next
        case t4: (Cons x t4)
        with t1 t2 t3 show ?thesis by (cases t4) auto
      qed
    qed
  qed
qed

lemma rests_after_slash:
  "[] \<in> set (rests (Cat (Lit CHR ''/'') (Cat AnyStar ext)) r)
   \<longleftrightarrow> (\<exists>stem t. r = ''/'' @ stem @ t \<and> [] \<in> set (rests ext t))"
proof (cases r)
  case Nil
  then show ?thesis by simp
next
  case (Cons a as)
  show ?thesis
  proof (cases "a = CHR ''/''")
    case True
    with Cons show ?thesis by (auto simp: set_suffixes)
  next
    case False
    with Cons show ?thesis by simp
  qed
qed

lemma grepE_pattern:
  "grepE (grepPattern prefix) ln \<longleftrightarrow>
     (\<exists>stem c k x. ln = prefix @ ''/'' @ stem @ [c, k, CHR ''s''] @ x
        \<and> (k = CHR ''j'' \<or> k = CHR ''t'') \<and> (x = [] \<or> x = ''x''))"
proof -
  define ext where
    "ext = Cat AnyChar (Cat (OneOf ''jt'') (Cat (Lit CHR ''s'') (Opt (Lit CHR ''x''))))"
  have ext: "[] \<in> set (rests ext t)
      \<longleftrightarrow> (\<exists>c k x. t = [c, k, CHR ''s''] @ x \<and> (k = CHR ''j'' \<or> k = CHR ''t'')
                \<and> (x = [] \<or> x = ''x''))" for t
    unfolding ext_def by (rule extension_match)
  have "grepE (grepPattern prefix) ln
      \<longleftrightarrow> [] \<in> set (rests (lits prefix (Cat (Lit CHR ''/'') (Cat AnyStar ext))) ln)"
    by (simp only: grepE_def grepPattern_def ext_def)
  also have "\<dots> \<longleftrightarrow> (\<exists>r. ln = prefix @ r
      \<and> [] \<in> set (rests (Cat (Lit CHR ''/'') (Cat AnyStar ext)) r))"
    unfolding rests_lits startsWith_iff by (auto simp del: rests.simps)
  also have "\<dots> \<longleftrightarrow> (\<exists>stem t. ln = prefix @ ''/'' @ stem @ t \<and> [] \<in> set (rests ext t))"
    unfolding rests_after_slash by blast
  also have "\<dots> \<longleftrightarrow> (\<exists>stem c k x. ln = prefix @ ''/'' @ stem @ [c, k, CHR ''s''] @ x
        \<and> (k = CHR ''j'' \<or> k = CHR ''t'') \<and> (x = [] \<or> x = ''x''))"
    unfolding ext by blast
  finally show ?thesis .
qed

lemma sed_strips:
  "sed prefix (prefix @ ''/'' @ rest) = rest"
  by (simp add: sed_def startsWith_iff)

lemma changedFiles_set:
  "set (changedFiles diff prefix) =
     {stem @ [c, k, CHR ''s''] @ x | stem c k x ch.
        (ch, prefix @ ''/'' @ stem @ [c, k, CHR ''s''] @ x) \<in> set diff
        \<and> (ch = Added \<or> ch = Copied \<or> ch = Modified \<or> ch = Renamed)
        \<and> (k = CHR ''j'' \<or> k = CHR ''t'') \<and> (x = [] \<or> x = ''x'')}"
  (is "?l = ?r")
proof (intro set_eqI iffI)
  fix f assume "f \<in> ?l"
  then obtain ch ln where d: "(ch, ln) \<in> set diff" and a: "diffFilterACMR ch"
    and g: "grepE (grepPattern prefix) ln" and f: "f = sed prefix ln"
    by (auto simp: changedFiles_def)
  from g obtain stem c k x where ln: "ln = prefix @ ''/'' @ stem @ [c, k, CHR ''s''] @ x"
    and k: "k = CHR ''j'' \<or> k = CHR ''t''" and x: "x = [] \<or> x = ''x''"
    unfolding grepE_pattern by blast
  have "f = stem @ [c, k, CHR ''s''] @ x" unfolding f ln by (rule sed_strips)
  with d a ln k x show "f \<in> ?r" unfolding diffFilterACMR_def by blast
next
  fix f assume "f \<in> ?r"
  then obtain stem c k x ch where f: "f = stem @ [c, k, CHR ''s''] @ x"
    and d: "(ch, prefix @ ''/'' @ stem @ [c, k, CHR ''s''] @ x) \<in> set diff"
    and a: "ch = Added \<or> ch = Copied \<or> ch = Modified \<or> ch = Renamed"
    and k: "k = CHR ''j'' \<or> k = CHR ''t''" and x: "x = [] \<or> x = ''x''"
    by blast
  have g: "grepE (grepPattern prefix) (prefix @ ''/'' @ stem @ [c, k, CHR ''s''] @ x)"
    unfolding grepE_pattern using k x by blast
  have "diffFilterACMR ch" using a by (simp add: diffFilterACMR_def)
  with d g have "sed prefix (prefix @ ''/'' @ stem @ [c, k, CHR ''s''] @ x) \<in> ?l"
    unfolding changedFiles_def by force
  then show "f \<in> ?l" unfolding f sed_strips .
qed

section \<open>Annotations and findings\<close>

text \<open>
  C1. In every run that gets a lint result list, the annotations emitted are the
  annotations of the findings of the files that have at least one finding, in order:
  their number is the sum of the finding counts of exactly those files, and a file
  without findings is filtered out before the annotations are built and contributes
  none.
\<close>

theorem annotation_count:
  assumes "getInput (inputs env) ''prefix'' True = Inr prefix"
    and "getInput (inputs env) ''workingDirectory'' False = Inr wd"
    and "pulls_get env = Inr pr"
    and "\<not> shouldBeSkipped (body pr)"
    and "snd (lintDiff env (base_sha pr) (head_sha pr) prefix wd) = Inr results"
  shows "length (warnings (fst (handler env)))
           = sum_list (map (\<lambda>file. length (messages file))
               (filter (\<lambda>file. messages file \<noteq> []) results))
         \<and> warnings (fst (handler env))
           = annotations env wd (filter (\<lambda>file. messages file \<noteq> []) results)
         \<and> filesWithErrors results = filter (\<lambda>file. messages file \<noteq> []) results"
proof -
  have f: "filesWithErrors results = filter (\<lambda>file. messages file \<noteq> []) results"
    by (simp add: filesWithErrors_def)
  have w: "warnings (fst (handler env))
             = annotations env wd (filter (\<lambda>file. messages file \<noteq> []) results)"
    using assms(5)
    by (simp add: handler_linted[OF assms(1-4)] warnings_append warnings_lintDiff
        warnings_report f)
  then have "length (warnings (fst (handler env)))
           = sum_list (map (\<lambda>file. length (messages file))
               (filter (\<lambda>file. messages file \<noteq> []) results))"
    by (simp add: length_annotations)
  with w f show ?thesis by simp
qed

theorem annotation_count_witness:
  "length (warnings (fst (handler (reporting (scenario (Some ''Fix the parser'')
      (Some ''summary.md'') twoChanges lintsFine))))) = 1
   \<and> warnings (fst (handler (reporting (scenario (Some ''Fix the parser'')
      (Some ''summary.md'') twoChanges lintsFine))))
     = annotations (reporting (scenario (Some ''Fix the parser'') (Some ''summary.md'')
         twoChanges lintsFine))
         [] [\<lparr>filePath = ''/work/pkg/a.ts'', messages = [finding]\<rparr>]"
proof -
  let ?env = "reporting (scenario (Some ''Fix the parser'') (Some ''summary.md'')
      twoChanges lintsFine)"
  let ?pr = "\<lparr>body = Some ''Fix the parser'', base_sha = ''A'', head_sha = ''B''\<rparr>"
  have prefix: "getInput (inputs ?env) ''prefix'' True = Inr ''pkg''"
    by (simp only: reporting_fields scenario_prefix)
  have wd: "getInput (inputs ?env) ''workingDirectory'' False = Inr []"
    by (simp only: reporting_fields scenario_workingDirectory)
  have pull: "pulls_get ?env = Inr ?pr"
    by (simp only: reporting_fields scenario_pull)
  have skip: "\<not> shouldBeSkipped (body ?pr)"
    by (simp add: shouldBeSkipped_def)
  have linted: "snd (lintDiff ?env (base_sha ?pr) (head_sha ?pr) ''pkg'' []) = Inr lintReport"
    by (simp add: reporting_lintsFine)
  show ?thesis
    using annotation_count [OF prefix wd pull skip linted]
    by (simp add: lintReport_def finding_def annotations_def)
qed

text \<open>
  C9. The annotation built for a finding has the finding's \<open>line\<close>, \<open>column\<close>, \<open>endLine\<close>
  and \<open>endColumn\<close> as its \<open>startLine\<close>, \<open>startColumn\<close>, \<open>endLine\<close> and \<open>endColumn\<close>,
  unchanged, whatever the values are; and the spans of the annotations a report emits
  are, in order, the spans of the findings of the files that have findings.
\<close>

theorem span_copied:
  "startLine (annotation env wd file m) = line m
   \<and> startColumn (annotation env wd file m) = column m
   \<and> a_endLine (annotation env wd file m) = endLine m
   \<and> a_endColumn (annotation env wd file m) = endColumn m
   \<and> map (\<lambda>a. (startLine a, startColumn a, a_endLine a, a_endColumn a))
         (warnings (fst (report env wd results)))
     = map (\<lambda>m. (line m, column m, endLine m, endColumn m))
         (concat (map messages (filesWithErrors results)))"
proof -
  have "map (\<lambda>a. (startLine a, startColumn a, a_endLine a, a_endColumn a))
          (annotations env wd files)
        = map (\<lambda>m. (line m, column m, endLine m, endColumn m)) (concat (map messages files))"
    for files :: "'a File list"
    by (induction files) (simp_all add: annotations_def annotation_def)
  then show ?thesis
    by (simp add: warnings_report annotation_def)
qed

section \<open>Severity of the summary\<close>

text \<open>
  C6. The emoji of the failure summary is decided by two strict comparisons of the
  finding count: a count from 1 to 10 gives \<^verbatim>\<open>:worried:\<close>, a count from 11 to 100 gives
  \<^verbatim>\<open>:disappointed_relieved:\<close>, and a count above 100 gives \<^verbatim>\<open>:sob:\<close>; at the boundaries,
  10 gives \<^verbatim>\<open>:worried:\<close>, 11 and 100 give \<^verbatim>\<open>:disappointed_relieved:\<close>, 101 gives \<^verbatim>\<open>:sob:\<close>.
  The summary written for a report with findings ends with the emoji of their total.
\<close>

theorem worriedEmoji_bounds:
  "(1 \<le> n \<and> n \<le> 10 \<longrightarrow> worriedEmoji n = '':worried:'')
   \<and> (11 \<le> n \<and> n \<le> 100 \<longrightarrow> worriedEmoji n = '':disappointed_relieved:'')
   \<and> (100 < n \<longrightarrow> worriedEmoji n = '':sob:'')
   \<and> worriedEmoji 10 = '':worried:''
   \<and> worriedEmoji 11 = '':disappointed_relieved:''
   \<and> worriedEmoji 100 = '':disappointed_relieved:''
   \<and> worriedEmoji 101 = '':sob:''
   \<and> (0 < totalErrors (filesWithErrors results) \<and> GITHUB_STEP_SUMMARY env = Some f \<longrightarrow>
        SummaryWritten f
          (''## Found '' @ showNat (totalErrors (filesWithErrors results))
           @ '' linter hints in the changed code. ''
           @ worriedEmoji (totalErrors (filesWithErrors results)))
          \<in> set (fst (report env wd results)))"
proof -
  have "SummaryWritten f
          (''## Found '' @ showNat (totalErrors (filesWithErrors results))
           @ '' linter hints in the changed code. ''
           @ worriedEmoji (totalErrors (filesWithErrors results)))
          \<in> set (fst (report env wd results))"
    if "0 < totalErrors (filesWithErrors results)" and "GITHUB_STEP_SUMMARY env = Some f"
    using that by (simp add: report_eq Let_def writeSummary_def)
  then show ?thesis by (simp add: worriedEmoji_def)
qed

theorem worriedEmoji_bounds_witness:
  "worriedEmoji 1 = '':worried:''
   \<and> worriedEmoji 57 = '':disappointed_relieved:''
   \<and> worriedEmoji 2500 = '':sob:''
   \<and> SummaryWritten ''summary.md'' ''## Found 1 linter hints in the changed code. :worried:''
       \<in> set (fst (report (scenario (Some ''Fix the parser'') (Some ''summary.md'')
                          twoChanges lintsFine) [] lintReport))"
proof -
  have total: "totalErrors (filesWithErrors lintReport) = Suc 0"
    by (simp add: totalErrors_def filesWithErrors_def lintReport_def)
  let ?env = "scenario (Some ''Fix the parser'') (Some ''summary.md'') twoChanges lintsFine"
  have low: "worriedEmoji 1 = '':worried:''
      \<and> SummaryWritten ''summary.md'' ''## Found 1 linter hints in the changed code. :worried:''
          \<in> set (fst (report ?env [] lintReport))"
    using worriedEmoji_bounds [where n = 1 and results = lintReport and f = "''summary.md''"
        and wd = "[]" and env = ?env]
    by (auto simp: total scenario_summary showNat_1)
  have mid: "worriedEmoji 57 = '':disappointed_relieved:''"
    using worriedEmoji_bounds [where n = 57 and results = lintReport and f = "''summary.md''"
        and wd = "[]" and env = ?env]
    by simp
  have high: "worriedEmoji 2500 = '':sob:''"
    using worriedEmoji_bounds [where n = 2500 and results = lintReport and f = "''summary.md''"
        and wd = "[]" and env = ?env]
    by simp
  from low mid high show ?thesis by simp
qed

section \<open>Rule documentation\<close>

text \<open>
  C3. The documentation URL is a function of the rule string alone, defined for every
  string, with no failing branch:
  \<^item> a rule without \<^verbatim>\<open>/\<close> maps to \<^verbatim>\<open>https://eslint.org/docs/rules/\<close> followed by the rule;
  \<^item> a rule whose text before the first \<^verbatim>\<open>/\<close> is \<^verbatim>\<open>jest\<close>, \<^verbatim>\<open>testing-library\<close> or
    \<^verbatim>\<open>@typescript-eslint\<close> maps to the plugin's documentation URL built from the rule id
    that follows the first \<^verbatim>\<open>/\<close>, which is the second element of the split rule, the text
    up to the next \<^verbatim>\<open>/\<close> if there is one;
  \<^item> a rule with any other text before the first \<^verbatim>\<open>/\<close> has no URL;
  \<^item> the message of the formatter is the pointer sentence when there is a URL and the
    generic sentence when there is none.
\<close>

theorem ruleUrl_total:
  "(CHR ''/'' \<notin> set ruleName \<longrightarrow>
      ruleUrl ruleName = Some (''https://eslint.org/docs/rules/'' @ ruleName))
   \<and> (CHR ''/'' \<notin> set ns \<longrightarrow>
        ruleUrl (ns @ ''/'' @ rest) =
          (if ns = ''jest''
           then Some (''https://github.com/jest-community/eslint-plugin-jest/blob/main/docs/rules/''
                      @ takeWhile (\<lambda>c. c \<noteq> CHR ''/'') rest @ ''.md'')
           else if ns = ''testing-library''
           then Some (''https://github.com/testing-library/eslint-plugin-testing-library/blob/main/docs/rules/''
                      @ takeWhile (\<lambda>c. c \<noteq> CHR ''/'') rest @ ''.md'')
           else if ns = ''@typescript-eslint''
           then Some (''https://github.com/typescript-eslint/typescript-eslint/blob/main/packages/eslint-plugin/docs/rules/''
                      @ takeWhile (\<lambda>c. c \<noteq> CHR ''/'') rest @ ''.md'')
           else None))
   \<and> (CHR ''/'' \<notin> set rest \<longrightarrow> takeWhile (\<lambda>c. c \<noteq> CHR ''/'') rest = rest)
   \<and> formatRuleMessage ruleName =
        (case ruleUrl ruleName of
           Some url \<Rightarrow> ''See '' @ url @ '' for details.''
         | None \<Rightarrow> ''No further rule information available.'')"
proof (intro conjI impI)
  assume "CHR ''/'' \<notin> set ruleName"
  then show "ruleUrl ruleName = Some (''https://eslint.org/docs/rules/'' @ ruleName)"
    by (rule ruleUrl_unnamespaced)
next
  assume "CHR ''/'' \<notin> set ns"
  then show "ruleUrl (ns @ ''/'' @ rest) =
          (if ns = ''jest''
           then Some (''https://github.com/jest-community/eslint-plugin-jest/blob/main/docs/rules/''
                      @ takeWhile (\<lambda>c. c \<noteq> CHR ''/'') rest @ ''.md'')
           else if ns = ''testing-library''
           then Some (''https://github.com/testing-library/eslint-plugin-testing-library/blob/main/docs/rules/''
                      @ takeWhile (\<lambda>c. c \<noteq> CHR ''/'') rest @ ''.md'')
           else if ns = ''@typescript-eslint''
           then Some (''https://github.com/typescript-eslint/typescript-eslint/blob/main/packages/eslint-plugin/docs/rules/''
                      @ takeWhile (\<lambda>c. c \<noteq> CHR ''/'') rest @ ''.md'')
           else None)"
    using ruleUrl_namespaced[of ns rest] by (simp add: Let_def)
next
  assume "CHR ''/'' \<notin> set rest"
  then show "takeWhile (\<lambda>c. c \<noteq> CHR ''/'') rest = rest"
    by (induction rest) auto
next
  show "formatRuleMessage ruleName =
        (case ruleUrl ruleName of
           Some url \<Rightarrow> ''See '' @ url @ '' for details.''
         | None \<Rightarrow> ''No further rule information available.'')"
    using ruleUrl_not_empty[of ruleName]
    by (simp add: formatRuleMessage_def split: option.splits)
qed

theorem ruleUrl_total_witness:
  "ruleUrl ''no-unused-vars'' = Some ''https://eslint.org/docs/rules/no-unused-vars''
   \<and> ruleUrl ''jest/no-focused-tests''
       = Some ''https://github.com/jest-community/eslint-plugin-jest/blob/main/docs/rules/no-focused-tests.md''
   \<and> ruleUrl ''testing-library/a/b''
       = Some ''https://github.com/testing-library/eslint-plugin-testing-library/blob/main/docs/rules/a.md''
   \<and> ruleUrl ''react/jsx-key'' = None
   \<and> formatRuleMessage ''react/jsx-key'' = ''No further rule information available.''"
proof -
  have a: "CHR ''/'' \<notin> set ''no-unused-vars''" by simp
  have b: "CHR ''/'' \<notin> set ''jest''" by simp
  have c: "CHR ''/'' \<notin> set ''react''" by simp
  have d: "CHR ''/'' \<notin> set ''no-focused-tests''" by simp
  have e: "CHR ''/'' \<notin> set ''testing-library''" by simp
  show ?thesis
    using ruleUrl_total [of "''no-unused-vars''" "''jest''" "''no-focused-tests''"]
      ruleUrl_total [of "''react/jsx-key''" "''react''" "''jsx-key''"]
      ruleUrl_total [of "''no-unused-vars''" "''testing-library''" "''a/b''"] a b c d e
    by simp
qed

section \<open>Skipping a pull request\<close>

text \<open>
  C4. The run is skipped if and only if the pull-request body is not null and one of
  \<^verbatim>\<open>[review skip]\<close>, \<^verbatim>\<open>[no review]\<close>, \<^verbatim>\<open>[skip review]\<close> occurs in it, character for
  character; a null body never skips; and a skipped run executes no command, so it
  resolves no diff and lints nothing, and it emits no annotation.
\<close>

theorem skip_iff:
  "(shouldBeSkipped b \<longleftrightarrow>
      (\<exists>str before after. b = Some str \<and>
         (str = before @ ''[review skip]'' @ after
          \<or> str = before @ ''[no review]'' @ after
          \<or> str = before @ ''[skip review]'' @ after)))
   \<and> \<not> shouldBeSkipped None
   \<and> (pulls_get env = Inr pr \<and> shouldBeSkipped (body pr) \<longrightarrow>
        (\<forall>cmd. Executed cmd \<notin> set (fst (handler env))) \<and> warnings (fst (handler env)) = [])"
proof -
  have "shouldBeSkipped (Some str) \<longleftrightarrow>
      (\<exists>before after. str = before @ ''[review skip]'' @ after
          \<or> str = before @ ''[no review]'' @ after
          \<or> str = before @ ''[skip review]'' @ after)" for str
  proof (cases "str = []")
    case True
    then show ?thesis by (simp add: shouldBeSkipped_def)
  next
    case False
    then show ?thesis
      unfolding shouldBeSkipped_def includesStr_iff
      by (simp only: option.case if_True not_False_eq_True) blast
  qed
  then have iff: "shouldBeSkipped b \<longleftrightarrow>
      (\<exists>str before after. b = Some str \<and>
         (str = before @ ''[review skip]'' @ after
          \<or> str = before @ ''[no review]'' @ after
          \<or> str = before @ ''[skip review]'' @ after))"
    by (cases b) (auto simp: shouldBeSkipped_def)
  have none: "\<not> shouldBeSkipped None"
    by (simp add: shouldBeSkipped_def)
  have quiet: "(\<forall>cmd. Executed cmd \<notin> set (fst (handler env))) \<and> warnings (fst (handler env)) = []"
    if pr: "pulls_get env = Inr pr" and skip: "shouldBeSkipped (body pr)"
  proof (cases "getInput (inputs env) ''prefix'' True")
    case (Inl e)
    then show ?thesis by (simp add: handler_no_prefix)
  next
    case (Inr prefix)
    show ?thesis unfolding handler_skipped[OF Inr pr skip] by simp
  qed
  from iff none quiet show ?thesis by blast
qed

theorem skip_iff_witness:
  "shouldBeSkipped (Some ''please review [skip review] thanks'')
   \<and> \<not> shouldBeSkipped (Some ''please review [Skip Review] thanks'')
   \<and> (\<forall>cmd. Executed cmd \<notin> set (fst (handler
         (scenario (Some ''please review [skip review] thanks'') (Some ''summary.md'')
            twoChanges lintsFine))))
   \<and> warnings (fst (handler
         (scenario (Some ''please review [skip review] thanks'') (Some ''summary.md'')
            twoChanges lintsFine))) = []"
proof -
  have s: "shouldBeSkipped (Some ''please review [skip review] thanks'')"
    by (simp add: shouldBeSkipped_def)
  then have "shouldBeSkipped
      (body \<lparr>body = Some ''please review [skip review] thanks'', base_sha = ''A'', head_sha = ''B''\<rparr>)"
    by simp
  moreover have "\<not> shouldBeSkipped (Some ''please review [Skip Review] thanks'')"
    by (simp add: shouldBeSkipped_def)
  ultimately show ?thesis
    using s scenario_pull skip_iff [of "Some ''please review [skip review] thanks''"
        "scenario (Some ''please review [skip review] thanks'') (Some ''summary.md'') twoChanges lintsFine"
        "\<lparr>body = Some ''please review [skip review] thanks'', base_sha = ''A'', head_sha = ''B''\<rparr>"]
    by blast
qed

text \<open>
  C10. A run whose pull-request body triggers the skip emits no annotation, never sets
  the failed status and writes no summary, neither the failure summary nor the positive
  one: all it produces are debug log lines, and it ends without an error once the
  required input was there.
\<close>

theorem skip_no_output:
  assumes "pulls_get env = Inr pr" and "shouldBeSkipped (body pr)"
  shows "(\<forall>a. Warning a \<notin> set (fst (handler env)))
       \<and> (\<forall>m. SetFailed m \<notin> set (fst (handler env)))
       \<and> (\<forall>f s. SummaryWritten f s \<notin> set (fst (handler env)))
       \<and> set (fst (handler env)) \<subseteq> range Debug
       \<and> (\<forall>prefix. getInput (inputs env) ''prefix'' True = Inr prefix
            \<longrightarrow> snd (handler env) = Inr ())"
proof (cases "getInput (inputs env) ''prefix'' True")
  case (Inl e)
  then show ?thesis by (simp add: handler_no_prefix)
next
  case (Inr prefix)
  show ?thesis
    unfolding handler_skipped[OF Inr assms] using Inr by auto
qed

theorem skip_no_output_witness:
  "(\<forall>a. Warning a \<notin> set (fst (handler (scenario (Some ''[no review] wip'') None twoChanges lintsFine))))
   \<and> (\<forall>m. SetFailed m \<notin> set (fst (handler (scenario (Some ''[no review] wip'') None twoChanges lintsFine))))
   \<and> (\<forall>f s. SummaryWritten f s
         \<notin> set (fst (handler (scenario (Some ''[no review] wip'') None twoChanges lintsFine))))
   \<and> snd (handler (scenario (Some ''[no review] wip'') None twoChanges lintsFine)) = Inr ()"
proof -
  have skip: "shouldBeSkipped
      (body \<lparr>body = Some ''[no review] wip'', base_sha = ''A'', head_sha = ''B''\<rparr>)"
    by (simp add: shouldBeSkipped_def)
  show ?thesis
    using skip_no_output [OF scenario_pull skip] scenario_prefix by blast
qed

section \<open>Failures of the linter\<close>



section \<open>The summary destination\<close>

text \<open>
  C7, as amended. When the summary destination is absent, no run writes a summary, and
  \<open>writeSummary\<close> raises the error \<^verbatim>\<open>No step summary filename passed in environment!\<close>
  before any write. The check is not made before the linting work, but only where the
  summary is about to be written: a skipped run ends without error and without
  executing anything; a run that is not skipped executes the lint command first, fails
  with the error of the lint command when that fails, and fails with the configuration
  error only when the lint command returned a parsable report, after the annotations
  and, when there are findings, the failed status were emitted.
\<close>

theorem missing_summary_file:
  assumes "GITHUB_STEP_SUMMARY env = None"
  shows "(\<forall>summary. writeSummary env summary
            = ([], Inl (Error ''No step summary filename passed in environment!'')))
       \<and> (\<forall>f s. SummaryWritten f s \<notin> set (fst (handler env)))
       \<and> (\<forall>prefix wd pr.
            getInput (inputs env) ''prefix'' True = Inr prefix
            \<and> getInput (inputs env) ''workingDirectory'' False = Inr wd
            \<and> pulls_get env = Inr pr \<longrightarrow>
            (shouldBeSkipped (body pr) \<longrightarrow>
               snd (handler env) = Inr ()
               \<and> (\<forall>cmd. Executed cmd \<notin> set (fst (handler env))))
            \<and> (\<not> shouldBeSkipped (body pr) \<longrightarrow>
               Executed (lintCommand (base_sha pr) (head_sha pr) prefix wd)
                 \<in> set (fst (handler env))
               \<and> (case snd (lintDiff env (base_sha pr) (head_sha pr) prefix wd) of
                    Inl e \<Rightarrow> snd (handler env) = Inl e \<and> warnings (fst (handler env)) = []
                  | Inr results \<Rightarrow>
                      snd (handler env)
                        = Inl (Error ''No step summary filename passed in environment!'')
                      \<and> warnings (fst (handler env))
                        = annotations env wd (filesWithErrors results)
                      \<and> (0 < totalErrors (filesWithErrors results) \<longrightarrow>
                           SetFailed (''Found '' @ showNat (totalErrors (filesWithErrors results))
                                      @ '' linter hints in the changed code.'')
                             \<in> set (fst (handler env))))))"
proof (intro conjI impI allI)
  fix summary
  show "writeSummary env summary
            = ([], Inl (Error ''No step summary filename passed in environment!''))"
    by (rule SummaryWritten_writeSummary[OF assms])
next
  fix f s
  show "SummaryWritten f s \<notin> set (fst (handler env))"
  proof (cases "getInput (inputs env) ''prefix'' True")
    case (Inl e)
    then show ?thesis by (simp add: handler_no_prefix)
  next
    case prefix: (Inr prefix)
    obtain wd where wd: "getInput (inputs env) ''workingDirectory'' False = Inr wd"
      by (simp add: getInput_optional)
    show ?thesis
    proof (cases "pulls_get env")
      case (Inl e)
      then show ?thesis using prefix by (simp add: handler_def getInput_optional)
    next
      case pull: (Inr pr)
      show ?thesis
      proof (cases "shouldBeSkipped (body pr)")
        case True
        show ?thesis unfolding handler_skipped[OF prefix pull True] by simp
      next
        case False
        show ?thesis
        proof (cases "snd (lintDiff env (base_sha pr) (head_sha pr) prefix wd)")
          case (Inl e)
          show ?thesis unfolding handler_lint_failed[OF prefix wd pull False Inl]
            by (simp add: lintDiff_quiet)
        next
          case (Inr results)
          show ?thesis unfolding handler_reported[OF prefix wd pull False Inr]
            by (simp add: lintDiff_quiet SummaryWritten_report_unconfigured[OF assms])
        qed
      qed
    qed
  qed
next
  fix prefix wd pr
  assume reach: "getInput (inputs env) ''prefix'' True = Inr prefix
            \<and> getInput (inputs env) ''workingDirectory'' False = Inr wd
            \<and> pulls_get env = Inr pr"
  then have prefix: "getInput (inputs env) ''prefix'' True = Inr prefix"
    and wd: "getInput (inputs env) ''workingDirectory'' False = Inr wd"
    and pull: "pulls_get env = Inr pr"
    by simp_all
  {
    assume skip: "shouldBeSkipped (body pr)"
    show "snd (handler env) = Inr ()"
      unfolding handler_skipped[OF prefix pull skip] by simp
    show "\<And>cmd. Executed cmd \<notin> set (fst (handler env))"
      unfolding handler_skipped[OF prefix pull skip] by simp
  }
  {
    assume run: "\<not> shouldBeSkipped (body pr)"
    show "Executed (lintCommand (base_sha pr) (head_sha pr) prefix wd) \<in> set (fst (handler env))"
      unfolding handler_linted[OF prefix wd pull run] Let_def
      by (simp add: Executed_lintDiff split: sum.splits)
    show "case snd (lintDiff env (base_sha pr) (head_sha pr) prefix wd) of
                    Inl e \<Rightarrow> snd (handler env) = Inl e \<and> warnings (fst (handler env)) = []
                  | Inr results \<Rightarrow>
                      snd (handler env)
                        = Inl (Error ''No step summary filename passed in environment!'')
                      \<and> warnings (fst (handler env))
                        = annotations env wd (filesWithErrors results)
                      \<and> (0 < totalErrors (filesWithErrors results) \<longrightarrow>
                           SetFailed (''Found '' @ showNat (totalErrors (filesWithErrors results))
                                      @ '' linter hints in the changed code.'')
                             \<in> set (fst (handler env)))"
    proof (cases "snd (lintDiff env (base_sha pr) (head_sha pr) prefix wd)")
      case (Inl e)
      show ?thesis unfolding Inl handler_lint_failed[OF prefix wd pull run Inl]
        by (simp add: warnings_append warnings_lintDiff)
    next
      case (Inr results)
      show ?thesis unfolding Inr handler_reported[OF prefix wd pull run Inr]
        using report_unconfigured[OF assms, where wd = wd and results = results]
        by (simp add: warnings_append warnings_lintDiff warnings_report)
    qed
  }
qed

theorem missing_summary_file_witness:
  "(\<forall>f s. SummaryWritten f s
       \<notin> set (fst (handler (scenario (Some ''Fix the parser'') None twoChanges lintsFine))))
   \<and> Executed (lintCommand ''A'' ''B'' ''pkg'' [])
       \<in> set (fst (handler (scenario (Some ''Fix the parser'') None twoChanges lintsFine)))
   \<and> snd (handler (scenario (Some ''Fix the parser'') None twoChanges lintsFine))
       = Inl (Rejected (Some ENOENT))"
proof -
  let ?env = "scenario (Some ''Fix the parser'') None twoChanges lintsFine"
  let ?pr = "\<lparr>body = Some ''Fix the parser'', base_sha = ''A'', head_sha = ''B''\<rparr>"
  have l: "snd (lintDiff ?env (base_sha ?pr) (head_sha ?pr) ''pkg'' [])
      = Inl (Rejected (Some ENOENT))"
    by (simp add: lintDiff_outcome scenario_programs)
  have absent: "GITHUB_STEP_SUMMARY ?env = None"
    by (rule scenario_summary)
  have reach: "getInput (inputs ?env) ''prefix'' True = Inr ''pkg''
      \<and> getInput (inputs ?env) ''workingDirectory'' False = Inr []
      \<and> pulls_get ?env = Inr ?pr"
    by (simp only: scenario_prefix scenario_workingDirectory scenario_pull simp_thms)
  from missing_summary_file [OF absent]
  have quiet: "\<forall>f s. SummaryWritten f s \<notin> set (fst (handler ?env))"
    and steps: "\<not> shouldBeSkipped (body ?pr) \<longrightarrow>
               Executed (lintCommand (base_sha ?pr) (head_sha ?pr) ''pkg'' [])
                 \<in> set (fst (handler ?env))
               \<and> (case snd (lintDiff ?env (base_sha ?pr) (head_sha ?pr) ''pkg'' []) of
                    Inl e \<Rightarrow> snd (handler ?env) = Inl e \<and> warnings (fst (handler ?env)) = []
                  | Inr results \<Rightarrow>
                      snd (handler ?env)
                        = Inl (Error ''No step summary filename passed in environment!'')
                      \<and> warnings (fst (handler ?env))
                        = annotations ?env [] (filesWithErrors results)
                      \<and> (0 < totalErrors (filesWithErrors results) \<longrightarrow>
                           SetFailed (''Found '' @ showNat (totalErrors (filesWithErrors results))
                                      @ '' linter hints in the changed code.'')
                             \<in> set (fst (handler ?env))))"
    using reach by blast+
  from steps usual_body l quiet show ?thesis by simp
qed

text \<open>
  The claim as stated fails: with the destination absent, a skipped run does not fail at
  all; and the scenario's run, which is not skipped, executes the lint command and
  fails with the error of \<^verbatim>\<open>spawnSync\<close>, not with a configuration error.
\<close>

theorem missing_summary_file_counterexample:
  "GITHUB_STEP_SUMMARY (scenario (Some ''[skip review]'') None twoChanges lintsFine) = None
   \<and> snd (handler (scenario (Some ''[skip review]'') None twoChanges lintsFine)) = Inr ()
   \<and> GITHUB_STEP_SUMMARY (scenario (Some ''Fix the parser'') None twoChanges lintsFine) = None
   \<and> Executed (lintCommand ''A'' ''B'' ''pkg'' [])
       \<in> set (fst (handler (scenario (Some ''Fix the parser'') None twoChanges lintsFine)))
   \<and> snd (handler (scenario (Some ''Fix the parser'') None twoChanges lintsFine))
       = Inl (Rejected (Some ENOENT))"
proof -
  let ?env = "scenario (Some ''Fix the parser'') None twoChanges lintsFine"
  let ?pr = "\<lparr>body = Some ''Fix the parser'', base_sha = ''A'', head_sha = ''B''\<rparr>"
  have l: "snd (lintDiff ?env (base_sha ?pr) (head_sha ?pr) ''pkg'' []) = Inl (Rejected (Some ENOENT))"
    by (simp add: lintDiff_outcome scenario_programs)
  have run: "Executed (lintCommand ''A'' ''B'' ''pkg'' []) \<in> set (fst (handler ?env))
     \<and> snd (handler ?env) = Inl (Rejected (Some ENOENT))"
    unfolding handler_lint_failed[OF scenario_prefix scenario_workingDirectory scenario_pull
        usual_body l]
    by (simp add: lintDiff_fst)
  have skipped: "shouldBeSkipped (body \<lparr>body = Some ''[skip review]'', base_sha = ''A'', head_sha = ''B''\<rparr>)"
    by (simp add: shouldBeSkipped_def)
  have "snd (handler (scenario (Some ''[skip review]'') None twoChanges lintsFine)) = Inr ()"
    unfolding handler_skipped[OF scenario_prefix scenario_pull skipped] by simp
  with run show ?thesis by (simp add: scenario_summary)
qed

section \<open>Nothing to lint\<close>




section \<open>The changed files\<close>

text \<open>
  C5. At a diff that modifies \<^verbatim>\<open>pkg/lib.mjs\<close>, adds \<^verbatim>\<open>pkg/assets\<close> and modifies
  \<^verbatim>\<open>pkg/a.ts\<close>, with the prefix \<^verbatim>\<open>pkg\<close>, the pipeline hands \<^verbatim>\<open>lib.mjs\<close>, \<^verbatim>\<open>assets\<close> and
  \<^verbatim>\<open>a.ts\<close> to the linter: the \<^verbatim>\<open>.\<close> before \<^verbatim>\<open>[jt]s\<close> in the pattern stands for any
  character, so files whose extension is none of \<^verbatim>\<open>.js\<close>, \<^verbatim>\<open>.jsx\<close>, \<^verbatim>\<open>.ts\<close>, \<^verbatim>\<open>.tsx\<close>
  pass the filter.
\<close>

theorem changedFiles_lets_mjs_through:
  "changedFiles [(Modified, ''pkg/lib.mjs''), (Added, ''pkg/assets''), (Modified, ''pkg/a.ts'')] ''pkg''
     = [''lib.mjs'', ''assets'', ''a.ts'']"
  by code_simp

end
